theory Spec2Isabelle
  imports Complex_Main
begin

section \<open>Python strings\<close>

text \<open>
  A Python \<open>str\<close> is modelled as a \<open>string\<close> whose characters are read as the code points
  0..255. On these code points the predicates below are exactly \<open>str.isspace\<close> (which is
  also the class \<open>\s\<close> of \<open>re\<close> and the set removed by \<open>str.strip\<close>), the class \<open>\d\<close>,
  the class \<open>\w\<close>, and \<open>str.lower\<close>.
\<close>

definition newline :: char where
  "newline = CHR 0x0A"

definition py_isspace :: "char \<Rightarrow> bool" where
  "py_isspace c = (let n = (of_char c :: nat) in
     (9 \<le> n \<and> n \<le> 13) \<or> (28 \<le> n \<and> n \<le> 32) \<or> n = 133 \<or> n = 160)"

definition py_isdecimal :: "char \<Rightarrow> bool" where
  "py_isdecimal c = (let n = (of_char c :: nat) in 48 \<le> n \<and> n \<le> 57)"

definition py_isword :: "char \<Rightarrow> bool" where
  "py_isword c = (let n = (of_char c :: nat) in
     (48 \<le> n \<and> n \<le> 57) \<or> (65 \<le> n \<and> n \<le> 90) \<or> n = 95 \<or> (97 \<le> n \<and> n \<le> 122)
     \<or> n = 170 \<or> n = 178 \<or> n = 179 \<or> n = 181 \<or> n = 185 \<or> n = 186
     \<or> (188 \<le> n \<and> n \<le> 190) \<or> (192 \<le> n \<and> n \<le> 214)
     \<or> (216 \<le> n \<and> n \<le> 246) \<or> (248 \<le> n \<and> n \<le> 255))"

definition py_lower_char :: "char \<Rightarrow> char" where
  "py_lower_char c = (let n = (of_char c :: nat) in
     if (65 \<le> n \<and> n \<le> 90) \<or> (192 \<le> n \<and> n \<le> 214) \<or> (216 \<le> n \<and> n \<le> 222)
     then char_of (n + 32) else c)"

definition py_lower :: "string \<Rightarrow> string" where
  "py_lower s = map py_lower_char s"

definition py_strip :: "string \<Rightarrow> string" where
  "py_strip s = rev (dropWhile py_isspace (rev (dropWhile py_isspace s)))"

text \<open>\<open>s.split(sep)\<close> for a one-character separator: never empty, \<open>''''.split(',') == ['''']\<close>.\<close>

fun py_split :: "char \<Rightarrow> string \<Rightarrow> string list" where
  "py_split sep [] = [[]]"
| "py_split sep (x # xs) =
     (if x = sep then [] # py_split sep xs
      else (case py_split sep xs of [] \<Rightarrow> [[x]] | w # ws \<Rightarrow> (x # w) # ws))"

text \<open>\<open>sub in s\<close> on strings.\<close>

fun starts_with :: "string \<Rightarrow> string \<Rightarrow> bool" where
  "starts_with [] s = True"
| "starts_with (c # cs) [] = False"
| "starts_with (c # cs) (x # xs) = (c = x \<and> starts_with cs xs)"

fun py_in :: "string \<Rightarrow> string \<Rightarrow> bool" where
  "py_in sub [] = starts_with sub []"
| "py_in sub (x # xs) = (starts_with sub (x # xs) \<or> py_in sub xs)"

text \<open>
  Exceptions. \<open>int(s)\<close> is modelled on the strings the program passes to it, runs of
  decimal digits: any other argument is a \<open>ValueError\<close> in the model. The integer is
  unbounded; the interpreter's configurable limit on the length of a digit string is not
  part of the model.
\<close>

datatype exn =
    Exception string
  | ValueError string
  | TypeError string
  | RemoteError string

fun exn_str :: "exn \<Rightarrow> string" where
  "exn_str (Exception msg) = msg"
| "exn_str (ValueError msg) = msg"
| "exn_str (TypeError msg) = msg"
| "exn_str (RemoteError msg) = msg"

definition digit_val :: "char \<Rightarrow> int" where
  "digit_val c = int (of_char c) - 48"

definition py_int :: "string \<Rightarrow> exn + int" where
  "py_int s =
     (if s \<noteq> [] \<and> list_all py_isdecimal s
      then Inr (foldl (\<lambda>acc c. 10 * acc + digit_val c) 0 s)
      else Inl (ValueError ''invalid literal for int() with base 10''))"

section \<open>Regular expressions\<close>

text \<open>
  The patterns of the program use literals, character sets, \<open>.\<close>, \<open>$\<close>, sequence,
  alternation, the greedy \<open>*\<close>, \<open>+\<close> and \<open>?\<close>, the lazy \<open>+?\<close>, one capturing group and
  lookahead. \<open>r+\<close> is \<open>r r*\<close>, \<open>r+?\<close> is \<open>r r*?\<close>, and \<open>r?\<close> is \<open>r|\<close> (the empty alternative
  last), which is the order in which a backtracking matcher tries them.
\<close>

datatype citem = Rng char char | One char | ClsD | ClsW | ClsS

datatype rx =
    Chr char
  | Set "citem list"
  | Dot
  | Dollar
  | Eps
  | Seq rx rx
  | Alt rx rx
  | Star rx
  | LazyStar rx
  | Grp rx
  | Ahead rx

definition Plus :: "rx \<Rightarrow> rx" where
  "Plus r = Seq r (Star r)"

definition LazyPlus :: "rx \<Rightarrow> rx" where
  "LazyPlus r = Seq r (LazyStar r)"

definition Opt :: "rx \<Rightarrow> rx" where
  "Opt r = Alt r Eps"

fun lit :: "string \<Rightarrow> rx" where
  "lit [] = Eps"
| "lit (c # cs) = Seq (Chr c) (lit cs)"

record flags =
  ignorecase :: bool
  dotall :: bool

definition re_none :: flags where
  "re_none = \<lparr>ignorecase = False, dotall = False\<rparr>"

definition re_I :: flags where
  "re_I = \<lparr>ignorecase = True, dotall = False\<rparr>"

definition re_I_S :: flags where
  "re_I_S = \<lparr>ignorecase = True, dotall = True\<rparr>"

definition chr_match :: "flags \<Rightarrow> char \<Rightarrow> char \<Rightarrow> bool" where
  "chr_match f c x = (if ignorecase f then py_lower_char c = py_lower_char x else c = x)"

fun citem_match :: "flags \<Rightarrow> citem \<Rightarrow> char \<Rightarrow> bool" where
  "citem_match f (Rng a b) x =
     (if ignorecase f
      then list_ex (\<lambda>n. py_lower_char (char_of n) = py_lower_char x) [of_char a ..< Suc (of_char b)]
      else (of_char a :: nat) \<le> of_char x \<and> (of_char x :: nat) \<le> of_char b)"
| "citem_match f (One a) x = chr_match f a x"
| "citem_match f ClsD x = py_isdecimal x"
| "citem_match f ClsW x = py_isword x"
| "citem_match f ClsS x = py_isspace x"

definition set_match :: "flags \<Rightarrow> citem list \<Rightarrow> char \<Rightarrow> bool" where
  "set_match f items x = list_ex (\<lambda>i. citem_match f i x) items"

definition dot_match :: "flags \<Rightarrow> char \<Rightarrow> bool" where
  "dot_match f x = (dotall f \<or> x \<noteq> newline)"

text \<open>
  The matcher, in continuation-passing style: \<open>rx_match f r s g k\<close> matches \<open>r\<close> at the
  front of the remaining text \<open>s\<close>, with \<open>g\<close> the text of group 1 so far, and hands the
  text that is left and the group to \<open>k\<close>; when \<open>k\<close> fails the matcher backtracks into
  \<open>r\<close>. A repetition does not iterate on an empty match.
\<close>

type_synonym mres = "(string \<times> string option) option"

fun rx_match :: "flags \<Rightarrow> rx \<Rightarrow> string \<Rightarrow> string option \<Rightarrow> (string \<Rightarrow> string option \<Rightarrow> mres) \<Rightarrow> mres" where
  "rx_match f (Chr c) s g k =
     (case s of [] \<Rightarrow> None | x # xs \<Rightarrow> if chr_match f c x then k xs g else None)"
| "rx_match f (Set items) s g k =
     (case s of [] \<Rightarrow> None | x # xs \<Rightarrow> if set_match f items x then k xs g else None)"
| "rx_match f Dot s g k =
     (case s of [] \<Rightarrow> None | x # xs \<Rightarrow> if dot_match f x then k xs g else None)"
| "rx_match f Dollar s g k = (if s = [] \<or> s = [newline] then k s g else None)"
| "rx_match f Eps s g k = k s g"
| "rx_match f (Seq a b) s g k = rx_match f a s g (\<lambda>s' g'. rx_match f b s' g' k)"
| "rx_match f (Alt a b) s g k =
     (case rx_match f a s g k of Some r \<Rightarrow> Some r | None \<Rightarrow> rx_match f b s g k)"
| "rx_match f (Star a) s g k =
     (case rx_match f a s g
             (\<lambda>s' g'. if length s' < length s then rx_match f (Star a) s' g' k else None) of
        Some r \<Rightarrow> Some r
      | None \<Rightarrow> k s g)"
| "rx_match f (LazyStar a) s g k =
     (case k s g of
        Some r \<Rightarrow> Some r
      | None \<Rightarrow> rx_match f a s g
             (\<lambda>s' g'. if length s' < length s then rx_match f (LazyStar a) s' g' k else None))"
| "rx_match f (Grp a) s g k =
     rx_match f a s g (\<lambda>s' g'. k s' (Some (take (length s - length s') s)))"
| "rx_match f (Ahead a) s g k =
     (case rx_match f a s g (\<lambda>s' g'. Some (s', g')) of
        Some (s', g') \<Rightarrow> k s g'
      | None \<Rightarrow> None)"

text \<open>
  \<open>re.search\<close>: the first position, from the left, at which the pattern matches. The
  result is the text from the start of the match, the text after the match, and group 1.
\<close>

definition match_here :: "flags \<Rightarrow> rx \<Rightarrow> string \<Rightarrow> mres" where
  "match_here f r s = rx_match f r s None (\<lambda>s' g. Some (s', g))"

fun re_search :: "flags \<Rightarrow> rx \<Rightarrow> string \<Rightarrow> (string \<times> string \<times> string option) option" where
  "re_search f r [] =
     (case match_here f r [] of Some (s', g) \<Rightarrow> Some ([], s', g) | None \<Rightarrow> None)"
| "re_search f r (x # xs) =
     (case match_here f r (x # xs) of
        Some (s', g) \<Rightarrow> Some (x # xs, s', g)
      | None \<Rightarrow> re_search f r xs)"

text \<open>\<open>match.group(1)\<close>; a group that took no part in the match is an error of the model.\<close>

definition group1 :: "(string \<times> string \<times> string option) \<Rightarrow> exn + string" where
  "group1 mt = (case mt of (st, rest, g) \<Rightarrow>
     (case g of None \<Rightarrow> Inl (TypeError ''group 1 is None'') | Some v \<Rightarrow> Inr v))"

definition group0 :: "(string \<times> string \<times> string option) \<Rightarrow> string" where
  "group0 mt = (case mt of (st, rest, g) \<Rightarrow> take (length st - length rest) st)"

lemma rx_match_shorter:
  "rx_match f r s g k = Some res \<Longrightarrow> \<exists>s' g'. k s' g' = Some res \<and> length s' \<le> length s"
proof (induction f r s g k arbitrary: res rule: rx_match.induct)
  case (6 f a b s g k)
  from 6(3) have "rx_match f a s g (\<lambda>s' g'. rx_match f b s' g' k) = Some res" by simp
  from 6(2)[OF this] obtain s1 g1 where a: "rx_match f b s1 g1 k = Some res" "length s1 \<le> length s"
    by blast
  from 6(1)[OF a(1)] a(2) show ?case by (meson le_trans)
next
  case (8 f a s g k)
  let ?K = "\<lambda>s' g'. if length s' < length s then rx_match f (Star a) s' g' k else None"
  show ?case
  proof (cases "rx_match f a s g ?K")
    case None
    with 8(3) show ?thesis by auto
  next
    case (Some r)
    with 8(3) have "rx_match f a s g ?K = Some res" by simp
    from 8(2)[OF this] obtain s1 g1 where a: "?K s1 g1 = Some res" "length s1 \<le> length s" by blast
    then have lt: "length s1 < length s" and b: "rx_match f (Star a) s1 g1 k = Some res"
      by (auto split: if_splits)
    from 8(1)[OF lt b] lt show ?thesis by (meson le_trans less_imp_le)
  qed
next
  case (9 f a s g k)
  let ?K = "\<lambda>s' g'. if length s' < length s then rx_match f (LazyStar a) s' g' k else None"
  show ?case
  proof (cases "k s g")
    case (Some r)
    with 9(3) show ?thesis by auto
  next
    case None
    with 9(3) have "rx_match f a s g ?K = Some res" by simp
    from 9(2)[OF None this] obtain s1 g1 where a: "?K s1 g1 = Some res" "length s1 \<le> length s" by blast
    then have lt: "length s1 < length s" and b: "rx_match f (LazyStar a) s1 g1 k = Some res"
      by (auto split: if_splits)
    from 9(1)[OF None lt b] lt show ?thesis by (meson le_trans less_imp_le)
  qed
next
  case (10 f a s g k)
  from 10(2) have "rx_match f a s g (\<lambda>s' g'. k s' (Some (take (length s - length s') s))) = Some res"
    by simp
  from 10(1)[OF this] show ?case by blast
next
  case (11 f a s g k)
  then show ?case by (auto split: option.splits)
next
  case (7 f a b s g k)
  then show ?case by (auto split: option.splits)
qed (auto split: list.splits if_splits)

lemma re_search_shorter:
  "re_search f r s = Some (st, rest, g) \<Longrightarrow> length rest \<le> length st \<and> length st \<le> length s"
proof (induction s)
  case Nil
  then show ?case
    by (auto simp: match_here_def split: option.splits dest!: rx_match_shorter)
next
  case (Cons x xs)
  show ?case
  proof (cases "match_here f r (x # xs)")
    case None
    with Cons show ?thesis by auto
  next
    case (Some a)
    with Cons.prems have "match_here f r st = Some (rest, g)" "st = x # xs"
      by (auto split: prod.splits)
    then show ?thesis
      by (auto simp: match_here_def dest!: rx_match_shorter)
  qed
qed

text \<open>
  \<open>re.findall\<close> for a pattern without groups: the texts of the successive matches, each
  search starting where the previous match ended (one character further after an empty
  match).
\<close>

function re_findall :: "flags \<Rightarrow> rx \<Rightarrow> string \<Rightarrow> string list" where
  "re_findall f r s =
     (case re_search f r s of
        None \<Rightarrow> []
      | Some (st, rest, g) \<Rightarrow>
          group0 (st, rest, g) #
            (if length rest < length st then re_findall f r rest
             else (case st of [] \<Rightarrow> [] | x # xs \<Rightarrow> re_findall f r xs)))"
  by pat_completeness auto
termination
proof (relation "measure (\<lambda>(f, r, s). length s)")
  show "wf (measure (\<lambda>(f, r, s). length s))" by simp
next
  fix f r s x2 st y rest g
  assume "re_search f r s = Some x2" "(st, y) = x2" "(rest, g) = y" "length rest < length st"
  then have "re_search f r s = Some (st, rest, g)" by simp
  from re_search_shorter[OF this] \<open>length rest < length st\<close>
  show "((f, r, rest), f, r, s) \<in> measure (\<lambda>(f, r, s). length s)" by simp
next
  fix f r s x2 st y rest g x xs
  assume "re_search f r s = Some x2" "(st, y) = x2" "(rest, g) = y" "st = x # xs"
  then have "re_search f r s = Some (st, rest, g)" by simp
  from re_search_shorter[OF this] \<open>st = x # xs\<close>
  show "((f, r, xs), f, r, s) \<in> measure (\<lambda>(f, r, s). length s)" by simp
qed

section \<open>URL extractor and input-type classifier\<close>

text \<open>
  \<^verbatim>\<open>http[s]?://(?:[a-zA-Z]|[0-9]|[$-_@.&+]|[!*\\(\\),]|(?:%[0-9a-fA-F][0-9a-fA-F]))+\<close>
  In the third set \<open>$-_\<close> is a range, from code point 0x24 to 0x5F; the fourth set holds
  the backslash (0x5C) twice.
\<close>

definition hex_set :: rx where
  "hex_set = Set [Rng CHR ''0'' CHR ''9'', Rng CHR ''a'' CHR ''f'', Rng CHR ''A'' CHR ''F'']"

definition url_unit :: rx where
  "url_unit =
     Alt (Set [Rng CHR ''a'' CHR ''z'', Rng CHR ''A'' CHR ''Z''])
    (Alt (Set [Rng CHR ''0'' CHR ''9''])
    (Alt (Set [Rng CHR ''$'' CHR ''_'', One CHR ''@'', One CHR ''.'', One CHR ''&'', One CHR ''+''])
    (Alt (Set [One CHR ''!'', One CHR ''*'', One (CHR 0x5C), One CHR ''('', One (CHR 0x5C),
               One CHR '')'', One CHR '',''])
         (Seq (Chr CHR ''%'') (Seq hex_set hex_set)))))"

definition url_pattern :: rx where
  "url_pattern =
     Seq (lit ''http'') (Seq (Opt (Set [One CHR ''s''])) (Seq (lit ''://'') (Plus url_unit)))"

definition extract_urls :: "string \<Rightarrow> string list" where
  "extract_urls text = re_findall re_none url_pattern text"

text \<open>\<^verbatim>\<open>http[s]?://\<close>, searched in the text as it is, with no flag.\<close>

definition url_prefix_pattern :: rx where
  "url_prefix_pattern = Seq (lit ''http'') (Seq (Opt (Set [One CHR ''s''])) (lit ''://''))"

definition detect_input_type :: "string \<Rightarrow> string" where
  "detect_input_type text =
     (let text_lower = py_lower text in
      if re_search re_none url_prefix_pattern text \<noteq> None then ''URL/Link''
      else if list_ex (\<lambda>keyword. py_in keyword text_lower)
                [''subject:'', ''from:'', ''to:'', ''dear'', ''regards'', ''sincerely'']
        then ''Email''
      else if length text < 200 \<and>
              list_ex (\<lambda>keyword. py_in keyword text_lower) [''click'', ''reply'', ''text'', ''msg'']
        then ''SMS/Text Message''
      else ''Text/Message'')"

section \<open>The result record\<close>

record metadata_rec =
  input_type :: string
  suspicious_elements :: int
  urls_found :: "string list"
  senders_domains :: "string list"
  analysis_time :: real

record analysis_result =
  verdict :: string
  confidence :: int
  explanation :: string
  highlighted_content :: string
  metadata :: metadata_rec

section \<open>The response parser\<close>

text \<open>The patterns, in the order of the source.\<close>

definition ws :: rx where
  "ws = Star (Set [ClsS])"

definition verdict_pattern :: rx where
  \<comment> \<open>\<^verbatim>\<open>VERDICT:\s*(\w+(?:-\w+)?)\<close>\<close>
  "verdict_pattern =
     Seq (lit ''VERDICT:'') (Seq ws
       (Grp (Seq (Plus (Set [ClsW])) (Opt (Seq (Chr CHR ''-'') (Plus (Set [ClsW])))))))"

definition confidence_pattern :: rx where
  \<comment> \<open>\<^verbatim>\<open>CONFIDENCE:\s*(\d+)%?\<close>\<close>
  "confidence_pattern =
     Seq (lit ''CONFIDENCE:'') (Seq ws (Seq (Grp (Plus (Set [ClsD]))) (Opt (Chr CHR ''%''))))"

definition explanation_pattern :: rx where
  \<comment> \<open>\<^verbatim>\<open>EXPLANATION:\s*(.+?)(?=HIGHLIGHTED_CONTENT:|METADATA:|$)\<close>\<close>
  "explanation_pattern =
     Seq (lit ''EXPLANATION:'') (Seq ws (Seq (Grp (LazyPlus Dot))
       (Ahead (Alt (lit ''HIGHLIGHTED_CONTENT:'') (Alt (lit ''METADATA:'') Dollar)))))"

definition highlighted_pattern :: rx where
  \<comment> \<open>\<^verbatim>\<open>HIGHLIGHTED_CONTENT:\s*(.+?)(?=METADATA:|$)\<close>\<close>
  "highlighted_pattern =
     Seq (lit ''HIGHLIGHTED_CONTENT:'') (Seq ws (Seq (Grp (LazyPlus Dot))
       (Ahead (Alt (lit ''METADATA:'') Dollar))))"

definition metadata_pattern :: rx where
  \<comment> \<open>\<^verbatim>\<open>METADATA:\s*(.+)\<close>\<close>
  "metadata_pattern = Seq (lit ''METADATA:'') (Seq ws (Grp (Plus Dot)))"

definition input_type_pattern :: rx where
  \<comment> \<open>\<^verbatim>\<open>Input Type:\s*(.+?)(?=\n|$)\<close>\<close>
  "input_type_pattern =
     Seq (lit ''Input Type:'') (Seq ws (Seq (Grp (LazyPlus Dot))
       (Ahead (Alt (Chr newline) Dollar))))"

definition susp_elem_pattern :: rx where
  \<comment> \<open>\<^verbatim>\<open>Suspicious Elements:\s*(\d+)\<close>\<close>
  "susp_elem_pattern = Seq (lit ''Suspicious Elements:'') (Seq ws (Grp (Plus (Set [ClsD]))))"

definition urls_pattern :: rx where
  \<comment> \<open>\<^verbatim>\<open>URLs Found:\s*(.+?)(?=\n[A-Z]|$)\<close>\<close>
  "urls_pattern =
     Seq (lit ''URLs Found:'') (Seq ws (Seq (Grp (LazyPlus Dot))
       (Ahead (Alt (Seq (Chr newline) (Set [Rng CHR ''A'' CHR ''Z''])) Dollar))))"

definition senders_pattern :: rx where
  \<comment> \<open>\<^verbatim>\<open>Senders/Domains:\s*(.+?)(?=\n|$)\<close>\<close>
  "senders_pattern =
     Seq (lit ''Senders/Domains:'') (Seq ws (Seq (Grp (LazyPlus Dot))
       (Ahead (Alt (Chr newline) Dollar))))"

text \<open>\<open>[x.strip() for x in v.split(',') if x.strip()]\<close>\<close>

definition comma_list :: "string \<Rightarrow> string list" where
  "comma_list v = map py_strip (filter (\<lambda>x. py_strip x \<noteq> []) (py_split CHR '','' v))"

text \<open>
  Each step of the parser searches the reply (or the metadata text) on its own and
  updates one field of the result when its pattern is found.
\<close>

definition bind :: "exn + 'a \<Rightarrow> ('a \<Rightarrow> exn + 'b) \<Rightarrow> exn + 'b" where
  "bind x h = (case x of Inl e \<Rightarrow> Inl e | Inr v \<Rightarrow> h v)"

definition extract_verdict :: "string \<Rightarrow> analysis_result \<Rightarrow> exn + analysis_result" where
  "extract_verdict analysis_text result =
     (case re_search re_I verdict_pattern analysis_text of
        None \<Rightarrow> Inr result
      | Some verdict_match \<Rightarrow>
          bind (group1 verdict_match) (\<lambda>v. Inr (result\<lparr>verdict := v\<rparr>)))"

definition extract_confidence :: "string \<Rightarrow> analysis_result \<Rightarrow> exn + analysis_result" where
  "extract_confidence analysis_text result =
     (case re_search re_I confidence_pattern analysis_text of
        None \<Rightarrow> Inr result
      | Some confidence_match \<Rightarrow>
          bind (group1 confidence_match) (\<lambda>v.
          bind (py_int v) (\<lambda>n. Inr (result\<lparr>confidence := n\<rparr>))))"

definition extract_explanation :: "string \<Rightarrow> analysis_result \<Rightarrow> exn + analysis_result" where
  "extract_explanation analysis_text result =
     (case re_search re_I_S explanation_pattern analysis_text of
        None \<Rightarrow> Inr result
      | Some explanation_match \<Rightarrow>
          bind (group1 explanation_match) (\<lambda>v. Inr (result\<lparr>explanation := py_strip v\<rparr>)))"

definition extract_highlighted :: "string \<Rightarrow> analysis_result \<Rightarrow> exn + analysis_result" where
  "extract_highlighted analysis_text result =
     (case re_search re_I_S highlighted_pattern analysis_text of
        None \<Rightarrow> Inr result
      | Some highlighted_match \<Rightarrow>
          bind (group1 highlighted_match) (\<lambda>v. Inr (result\<lparr>highlighted_content := py_strip v\<rparr>)))"

definition extract_input_type :: "string \<Rightarrow> metadata_rec \<Rightarrow> exn + metadata_rec" where
  "extract_input_type metadata_text md =
     (case re_search re_I input_type_pattern metadata_text of
        None \<Rightarrow> Inr md
      | Some input_type_match \<Rightarrow>
          bind (group1 input_type_match) (\<lambda>v. Inr (md\<lparr>input_type := py_strip v\<rparr>)))"

definition extract_susp_elem :: "string \<Rightarrow> metadata_rec \<Rightarrow> exn + metadata_rec" where
  "extract_susp_elem metadata_text md =
     (case re_search re_I susp_elem_pattern metadata_text of
        None \<Rightarrow> Inr md
      | Some susp_elem_match \<Rightarrow>
          bind (group1 susp_elem_match) (\<lambda>v.
          bind (py_int v) (\<lambda>n. Inr (md\<lparr>suspicious_elements := n\<rparr>))))"

definition extract_urls_found :: "string \<Rightarrow> metadata_rec \<Rightarrow> exn + metadata_rec" where
  "extract_urls_found metadata_text md =
     (case re_search re_I_S urls_pattern metadata_text of
        None \<Rightarrow> Inr md
      | Some urls_match \<Rightarrow>
          bind (group1 urls_match) (\<lambda>v.
            let urls_text = py_strip v in
            if py_lower urls_text \<noteq> ''none''
            then Inr (md\<lparr>urls_found := comma_list urls_text\<rparr>)
            else Inr md))"

definition extract_senders :: "string \<Rightarrow> metadata_rec \<Rightarrow> exn + metadata_rec" where
  "extract_senders metadata_text md =
     (case re_search re_I_S senders_pattern metadata_text of
        None \<Rightarrow> Inr md
      | Some senders_match \<Rightarrow>
          bind (group1 senders_match) (\<lambda>v.
            let senders_text = py_strip v in
            if py_lower senders_text \<noteq> ''none''
            then Inr (md\<lparr>senders_domains := comma_list senders_text\<rparr>)
            else Inr md))"

definition extract_metadata :: "string \<Rightarrow> analysis_result \<Rightarrow> exn + analysis_result" where
  "extract_metadata analysis_text result =
     (case re_search re_I_S metadata_pattern analysis_text of
        None \<Rightarrow> Inr result
      | Some metadata_match \<Rightarrow>
          bind (group1 metadata_match) (\<lambda>metadata_text.
          bind (extract_input_type metadata_text (metadata result)) (\<lambda>md1.
          bind (extract_susp_elem metadata_text md1) (\<lambda>md2.
          bind (extract_urls_found metadata_text md2) (\<lambda>md3.
          bind (extract_senders metadata_text md3) (\<lambda>md4.
          Inr (result\<lparr>metadata := md4\<rparr>)))))))"

definition seeded_result :: "string \<Rightarrow> real \<Rightarrow> analysis_result" where
  "seeded_result text t =
     \<lparr>verdict = ''Safe'',
      confidence = 50,
      explanation = ''Analysis completed'',
      highlighted_content = text,
      metadata = \<lparr>input_type = detect_input_type text,
                  suspicious_elements = 0,
                  urls_found = extract_urls text,
                  senders_domains = [],
                  analysis_time = t\<rparr>\<rparr>"

definition parse_response :: "string \<Rightarrow> string \<Rightarrow> real \<Rightarrow> exn + analysis_result" where
  "parse_response analysis_text text t =
     bind (extract_verdict analysis_text (seeded_result text t)) (\<lambda>r1.
     bind (extract_confidence analysis_text r1) (\<lambda>r2.
     bind (extract_explanation analysis_text r2) (\<lambda>r3.
     bind (extract_highlighted analysis_text r3) (\<lambda>r4.
     extract_metadata analysis_text r4))))"



section \<open>The analysis operation and the endpoint\<close>

text \<open>The prompt is the template of the source with the text inserted as it is.\<close>

definition dq :: char where
  "dq = CHR 0x22"

definition prompt_head_lines :: "string list" where
  "prompt_head_lines =
    [''You are an expert cybersecurity analyst specializing in phishing detection. Analyze the following content for phishing indicators.'',
     [],
     ''Content to analyze:'']"

definition prompt_tail_lines :: "string list" where
  "prompt_tail_lines =
    [[],
     ''Please provide a comprehensive analysis with the following structure:'',
     [],
     ''1. VERDICT: Classify as one of these:'',
     ''   - '' @ [dq] @ ''Safe'' @ [dq] @ '' - legitimate content with no phishing indicators'',
     ''   - '' @ [dq] @ ''Suspicious'' @ [dq] @ '' - contains some concerning elements but not definitively phishing'',
     ''   - '' @ [dq] @ ''High-risk'' @ [dq] @ '' - clear phishing attempt with multiple red flags'',
     [],
     ''2. CONFIDENCE: Provide a confidence score from 0-100%'',
     [],
     ''3. EXPLANATION: A brief 2-3 sentence explanation of why you reached this verdict'',
     [],
     ''4. HIGHLIGHTED_CONTENT: Return the original content with risky parts wrapped in tags:'',
     ''   - Use <red>text</red> for high-risk elements (dangerous URLs, credential requests, etc.)'',
     ''   - Use <yellow>text</yellow> for suspicious elements (urgency tactics, spelling errors, etc.)'',
     ''   - Keep safe text unchanged'',
     [],
     ''5. METADATA:'',
     ''   - Input type (Email, SMS, URL, or Text)'',
     ''   - Number of suspicious elements found'',
     ''   - List of extracted URLs (if any)'',
     ''   - List of suspicious senders/domains (if applicable)'',
     [],
     ''Format your response EXACTLY as follows (use these exact section headers):'',
     [],
     ''VERDICT: [Safe/Suspicious/High-risk]'',
     ''CONFIDENCE: [number]%'',
     ''EXPLANATION: [your explanation]'',
     ''HIGHLIGHTED_CONTENT:'',
     ''[content with <red> and <yellow> tags]'',
     ''METADATA:'',
     ''Input Type: [type]'',
     ''Suspicious Elements: [number]'',
     ''URLs Found: [list or '' @ [dq] @ ''None'' @ [dq] @ '']'',
     ''Senders/Domains: [list or '' @ [dq] @ ''None'' @ [dq] @ '']'']"

fun join_lines :: "string list \<Rightarrow> string" where
  "join_lines [] = []"
| "join_lines [l] = l"
| "join_lines (l # ls) = l @ [newline] @ join_lines ls"

definition build_prompt :: "string \<Rightarrow> string" where
  "build_prompt text =
     join_lines prompt_head_lines @ [newline] @ text @ [newline] @ join_lines prompt_tail_lines"

text \<open>
  The environment of a request: the remote client, absent when no credential is
  configured, as the function from the prompt to the reply text or to the exception of the
  call; and the time the call takes. The operation returns its outcome and the list of the
  prompts sent to the remote service.
\<close>

record env =
  deepseek_client :: "(string \<Rightarrow> exn + string) option"
  elapsed :: real

definition analyze_with_deepseek :: "env \<Rightarrow> string \<Rightarrow> (exn + analysis_result) \<times> string list" where
  "analyze_with_deepseek e text =
     (case deepseek_client e of
        None \<Rightarrow>
          (Inl (Exception ''DeepSeek API client not initialized. Please set DEEPSEEK_API_KEY environment variable.''), [])
      | Some create \<Rightarrow>
          (let prompt = build_prompt text in
           case create prompt of
             Inl err \<Rightarrow> (Inl (Exception (''DeepSeek analysis failed: '' @ exn_str err)), [prompt])
           | Inr analysis_text \<Rightarrow>
               (case parse_response analysis_text text (elapsed e) of
                  Inl err \<Rightarrow> (Inl (Exception (''DeepSeek analysis failed: '' @ exn_str err)), [prompt])
                | Inr result \<Rightarrow> (Inr result, [prompt]))))"

datatype response =
    JSONResponse nat string
  | Payload analysis_result

definition check_phishing :: "env \<Rightarrow> string \<Rightarrow> response \<times> string list" where
  "check_phishing e input_text =
     (let text = py_strip input_text in
      if text = [] then (JSONResponse 400 ''Text cannot be empty'', [])
      else (case analyze_with_deepseek e text of
              (Inl err, calls) \<Rightarrow> (JSONResponse 500 (''Prediction failed: '' @ exn_str err), calls)
            | (Inr result, calls) \<Rightarrow> (Payload result, calls)))"

text \<open>Reference functions used to reason about the matcher.\<close>

fun lit_prefix :: "flags \<Rightarrow> string \<Rightarrow> string \<Rightarrow> bool" where
  "lit_prefix f [] s = True"
| "lit_prefix f (c # cs) [] = False"
| "lit_prefix f (c # cs) (x # xs) = (chr_match f c x \<and> lit_prefix f cs xs)"


fun lazy :: "(char \<Rightarrow> bool) \<Rightarrow> string \<Rightarrow> (string \<Rightarrow> mres) \<Rightarrow> mres" where
  "lazy P [] k = k []"
| "lazy P (x # xs) k =
     (case k (x # xs) of Some r \<Rightarrow> Some r | None \<Rightarrow> if P x then lazy P xs k else None)"













text \<open>
  Modelled from the spec: the URL grammar as section 4.1 words it, \<open>scheme://body+\<close> for
  the schemes \<open>http\<close> and \<open>https\<close>, a body of alphanumerics, of the characters of the
  literal set \<open>$-_@.&+!*(),\<close> and of percent-encoded octets. It is compared with what the
  extractor of the source returns.
\<close>

definition spec_hex :: "char \<Rightarrow> bool" where
  "spec_hex c = (let n = (of_char c :: nat) in
     (48 \<le> n \<and> n \<le> 57) \<or> (65 \<le> n \<and> n \<le> 70) \<or> (97 \<le> n \<and> n \<le> 102))"

definition spec_body_char :: "char \<Rightarrow> bool" where
  "spec_body_char c = (let n = (of_char c :: nat) in
     (48 \<le> n \<and> n \<le> 57) \<or> (65 \<le> n \<and> n \<le> 90) \<or> (97 \<le> n \<and> n \<le> 122)
     \<or> c \<in> set ''$-_@.&+!*(),'')"

fun spec_body :: "string \<Rightarrow> bool" where
  "spec_body [] = True"
| "spec_body (c # cs) =
     (if c = CHR ''%''
      then (case cs of h1 # h2 # r \<Rightarrow> spec_hex h1 \<and> spec_hex h2 \<and> spec_body r | _ \<Rightarrow> False)
      else spec_body_char c \<and> spec_body cs)"

definition spec_url :: "string \<Rightarrow> bool" where
  "spec_url u =
     ((starts_with ''http://'' u \<and> drop 7 u \<noteq> [] \<and> spec_body (drop 7 u))
      \<or> (starts_with ''https://'' u \<and> drop 8 u \<noteq> [] \<and> spec_body (drop 8 u)))"

text \<open>
  What the pattern of the source accepts as a body character: an ASCII letter or digit,
  \<open>!\<close>, or a code point from 0x24 to 0x5F, the range \<open>$-_\<close> of its third set (which holds
  \<open>% & ( ) * + , - . / : ; < = > ? @ [ \ ] ^ _\<close> among others).
\<close>

definition url_body_char :: "char \<Rightarrow> bool" where
  "url_body_char c = (let n = (of_char c :: nat) in
     n = 33 \<or> (36 \<le> n \<and> n \<le> 95) \<or> (97 \<le> n \<and> n \<le> 122))"

definition url_shape :: "string \<Rightarrow> bool" where
  "url_shape u =
     ((starts_with ''http://'' u \<and> drop 7 u \<noteq> [] \<and> list_all url_body_char (drop 7 u))
      \<or> (starts_with ''https://'' u \<and> drop 8 u \<noteq> [] \<and> list_all url_body_char (drop 8 u)))"











lemma rx_match_lit:
  "rx_match f (lit cs) s g k = (if lit_prefix f cs s then k (drop (length cs) s) g else None)"
  by (induction f cs s rule: lit_prefix.induct) (auto split: list.splits)








lemma lazy_Some:
  "lazy P s k = Some r \<Longrightarrow> \<exists>p s'. s = p @ s' \<and> list_all P p \<and> k s' = Some r"
proof (induction s)
  case Nil
  then show ?case by simp
next
  case (Cons x xs)
  show ?case
  proof (cases "k (x # xs)")
    case (Some a)
    with Cons.prems have "x # xs = [] @ (x # xs) \<and> list_all P [] \<and> k (x # xs) = Some r" by simp
    then show ?thesis by blast
  next
    case None
    with Cons.prems have px: "P x" and "lazy P xs k = Some r" by (auto split: if_splits)
    with Cons.IH obtain p s' where "xs = p @ s'" "list_all P p" "k s' = Some r" by blast
    then have "x # xs = (x # p) @ s'" "list_all P (x # p)" using px by auto
    with \<open>k s' = Some r\<close> show ?thesis by blast
  qed
qed






declare rx_match.simps(8,9) [simp del]

declare lit.simps [simp del]

subsection \<open>Search\<close>


lemma re_search_Some:
  "re_search f r s = Some (st, rest, g) \<Longrightarrow>
     (\<exists>pre. s = pre @ st) \<and> match_here f r st = Some (rest, g)"
proof (induction s)
  case Nil
  then show ?case by (auto split: option.splits)
next
  case (Cons x xs)
  show ?case
  proof (cases "match_here f r (x # xs)")
    case None
    with Cons.prems have "re_search f r xs = Some (st, rest, g)" by simp
    from Cons.IH[OF this] obtain pre where "xs = pre @ st" and m: "match_here f r st = Some (rest, g)"
      by blast
    then have "x # xs = (x # pre) @ st" by simp
    with m show ?thesis by blast
  next
    case (Some a)
    with Cons.prems have "st = x # xs" "match_here f r st = Some (rest, g)"
      by (auto split: prod.splits)
    then have "x # xs = [] @ st \<and> match_here f r st = Some (rest, g)" by simp
    then show ?thesis by blast
  qed
qed

lemma re_search_None:
  "re_search f r s = None \<Longrightarrow> match_here f r (drop i s) = None"
proof (induction s arbitrary: i)
  case Nil
  then show ?case by (auto split: option.splits)
next
  case (Cons x xs)
  then show ?case by (cases i) (auto split: option.splits)
qed



subsection \<open>Headers\<close>





subsection \<open>Digits\<close>

lemma digit_val_nonneg: "py_isdecimal c \<Longrightarrow> 0 \<le> digit_val c"
  by (simp add: py_isdecimal_def digit_val_def Let_def)

lemma foldl_digits_nonneg:
  "list_all py_isdecimal v \<Longrightarrow> 0 \<le> acc \<Longrightarrow> 0 \<le> foldl (\<lambda>acc c. 10 * acc + digit_val c) acc v"
proof (induction v arbitrary: acc)
  case Nil
  then show ?case by simp
next
  case (Cons c v)
  then have "0 \<le> 10 * acc + digit_val c" using digit_val_nonneg[of c] by simp
  with Cons show ?case by simp
qed

lemma py_int_digits:
  "v \<noteq> [] \<Longrightarrow> list_all py_isdecimal v \<Longrightarrow> \<exists>n. py_int v = Inr n \<and> 0 \<le> n"
  by (simp add: py_int_def foldl_digits_nonneg)


subsection \<open>The parser returns\<close>




lemma eps_keeps:
  "rx_match f Eps s (Some v) (\<lambda>s' g. Some (s', g)) = Some res \<Longrightarrow> snd res = Some v"
  by auto














subsection \<open>Group 1 is a piece of the text\<close>








subsection \<open>Characters\<close>




subsection \<open>Shape of the verdict\<close>


































text \<open>
  C8. A request whose text is empty or holds only whitespace is answered with the status
  400 and \<open>Text cannot be empty\<close>; nothing is sent to the remote service and no result is
  built.
\<close>

lemma strip_blank: "list_all py_isspace s \<Longrightarrow> py_strip s = []"
proof -
  assume "list_all py_isspace s"
  then have d: "dropWhile py_isspace s = []" by (induction s) auto
  show ?thesis unfolding py_strip_def d by simp
qed

theorem blank_input_rejected:
  "list_all py_isspace input_text \<Longrightarrow>
     check_phishing e input_text = (JSONResponse 400 ''Text cannot be empty'', [])"
  by (simp add: check_phishing_def strip_blank)

theorem blank_input_rejected_witness:
  "check_phishing \<lparr>deepseek_client = Some (\<lambda>p. Inr ''VERDICT: Safe''), elapsed = 0\<rparr>
       ('' '' @ [newline] @ ''  '')
     = (JSONResponse 400 ''Text cannot be empty'', [])"
proof -
  have "list_all py_isspace ('' '' @ [newline] @ ''  '')"
    by (simp add: py_isspace_def newline_def)
  then show ?thesis by (rule blank_input_rejected)
qed

subsection \<open>The classifier\<close>








subsection \<open>The URL extractor\<close>

lemma star_consumes:
  assumes u: "\<And>s g k res. rx_match f a s g k = Some res \<Longrightarrow>
                \<exists>p s'. s = p @ s' \<and> list_all P p \<and> k s' g = Some res"
  shows "rx_match f (Star a) s g k = Some res \<Longrightarrow>
           \<exists>p s'. s = p @ s' \<and> list_all P p \<and> k s' g = Some res"
proof (induction "length s" arbitrary: s rule: less_induct)
  case less
  let ?K = "\<lambda>s' g'. if length s' < length s then rx_match f (Star a) s' g' k else None"
  show ?case
  proof (cases "rx_match f a s g ?K")
    case None
    with less.prems have "s = [] @ s \<and> list_all P [] \<and> k s g = Some res"
      by (simp add: rx_match.simps(8))
    then show ?thesis by blast
  next
    case (Some r)
    with less.prems have "rx_match f a s g ?K = Some res" by (simp add: rx_match.simps(8))
    from u[OF this] obtain p1 s1 where
      a: "s = p1 @ s1" "list_all P p1" "?K s1 g = Some res" by blast
    then have lt: "length s1 < length s" and b: "rx_match f (Star a) s1 g k = Some res"
      by (auto split: if_splits)
    from less.hyps[OF lt b] obtain p2 s2 where
      "s1 = p2 @ s2" "list_all P p2" "k s2 g = Some res" by blast
    with a have "s = (p1 @ p2) @ s2 \<and> list_all P (p1 @ p2) \<and> k s2 g = Some res" by simp
    then show ?thesis by blast
  qed
qed

lemma set_match_body:
  "set_match re_none [Rng CHR ''a'' CHR ''z'', Rng CHR ''A'' CHR ''Z''] x \<Longrightarrow> url_body_char x"
  "set_match re_none [Rng CHR ''0'' CHR ''9''] x \<Longrightarrow> url_body_char x"
  "set_match re_none [Rng CHR ''$'' CHR ''_'', One CHR ''@'', One CHR ''.'', One CHR ''&'', One CHR ''+''] x
     \<Longrightarrow> url_body_char x"
  "set_match re_none [One CHR ''!'', One CHR ''*'', One (CHR 0x5C), One CHR ''('', One (CHR 0x5C),
               One CHR '')'', One CHR '',''] x \<Longrightarrow> url_body_char x"
  "set_match re_none [Rng CHR ''0'' CHR ''9'', Rng CHR ''a'' CHR ''f'', Rng CHR ''A'' CHR ''F''] x
     \<Longrightarrow> url_body_char x"
  by (auto simp: set_match_def re_none_def chr_match_def url_body_char_def Let_def)

lemma url_unit_consumes:
  assumes "rx_match re_none url_unit s g k = Some res"
  shows "\<exists>p s'. s = p @ s' \<and> p \<noteq> [] \<and> list_all url_body_char p \<and> k s' g = Some res"
proof -
  let ?A1 = "Set [Rng CHR ''a'' CHR ''z'', Rng CHR ''A'' CHR ''Z'']"
  let ?A2 = "Set [Rng CHR ''0'' CHR ''9'']"
  let ?A3 = "Set [Rng CHR ''$'' CHR ''_'', One CHR ''@'', One CHR ''.'', One CHR ''&'', One CHR ''+'']"
  let ?A4 = "Set [One CHR ''!'', One CHR ''*'', One (CHR 0x5C), One CHR ''('', One (CHR 0x5C),
               One CHR '')'', One CHR '','']"
  let ?A5 = "Seq (Chr CHR ''%'') (Seq hex_set hex_set)"
  let ?T = "\<exists>p s'. s = p @ s' \<and> p \<noteq> [] \<and> list_all url_body_char p \<and> k s' g = Some res"
  have one: "\<And>items. rx_match re_none (Set items) s g k = Some res \<Longrightarrow>
      (\<And>x. set_match re_none items x \<Longrightarrow> url_body_char x) \<Longrightarrow> ?T"
  proof -
    fix items
    assume m: "rx_match re_none (Set items) s g k = Some res"
      and b: "\<And>x. set_match re_none items x \<Longrightarrow> url_body_char x"
    from m obtain x xs where "s = x # xs" "set_match re_none items x" "k xs g = Some res"
      by (auto split: list.splits if_splits)
    with b[of x] have "s = [x] @ xs \<and> [x] \<noteq> [] \<and> list_all url_body_char [x] \<and> k xs g = Some res"
      by simp
    then show ?T by blast
  qed
  from assms consider
      "rx_match re_none ?A1 s g k = Some res" | "rx_match re_none ?A2 s g k = Some res"
    | "rx_match re_none ?A3 s g k = Some res" | "rx_match re_none ?A4 s g k = Some res"
    | "rx_match re_none ?A5 s g k = Some res"
    unfolding url_unit_def by (simp only: rx_match.simps(7) split: option.splits)
  then show ?thesis
  proof cases
    case 1
    then show ?thesis by (rule one) (rule set_match_body(1))
  next
    case 2
    then show ?thesis by (rule one) (rule set_match_body(2))
  next
    case 3
    then show ?thesis by (rule one) (rule set_match_body(3))
  next
    case 4
    then show ?thesis by (rule one) (rule set_match_body(4))
  next
    case 5
    then obtain x h1 h2 r where s: "s = x # h1 # h2 # r" and x: "x = CHR ''%''"
      and h: "set_match re_none [Rng CHR ''0'' CHR ''9'', Rng CHR ''a'' CHR ''f'', Rng CHR ''A'' CHR ''F''] h1"
             "set_match re_none [Rng CHR ''0'' CHR ''9'', Rng CHR ''a'' CHR ''f'', Rng CHR ''A'' CHR ''F''] h2"
      and k: "k r g = Some res"
      by (auto simp: hex_set_def chr_match_def re_none_def split: list.splits if_splits)
    have "url_body_char x" using x by (simp add: url_body_char_def)
    with h set_match_body(5) have "list_all url_body_char [x, h1, h2]" by simp
    with s k have "s = [x, h1, h2] @ r \<and> [x, h1, h2] \<noteq> [] \<and> list_all url_body_char [x, h1, h2]
        \<and> k r g = Some res" by simp
    then show ?thesis by blast
  qed
qed

lemma url_plus_consumes:
  assumes "rx_match re_none (Plus url_unit) s g k = Some res"
  shows "\<exists>p s'. s = p @ s' \<and> p \<noteq> [] \<and> list_all url_body_char p \<and> k s' g = Some res"
proof -
  from assms have "rx_match re_none url_unit s g
      (\<lambda>s' g'. rx_match re_none (Star url_unit) s' g' k) = Some res"
    by (simp add: Plus_def)
  from url_unit_consumes[OF this] obtain p1 s1 where
    a: "s = p1 @ s1" "p1 \<noteq> []" "list_all url_body_char p1"
    and b: "rx_match re_none (Star url_unit) s1 g k = Some res" by blast
  have "\<exists>p s'. s1 = p @ s' \<and> list_all url_body_char p \<and> k s' g = Some res"
  proof (rule star_consumes[OF _ b])
    fix s g k res
    assume "rx_match re_none url_unit s g k = Some res"
    from url_unit_consumes[OF this]
    show "\<exists>p s'. s = p @ s' \<and> list_all url_body_char p \<and> k s' g = Some res" by blast
  qed
  then obtain p2 s2 where "s1 = p2 @ s2" "list_all url_body_char p2" "k s2 g = Some res" by blast
  with a have "s = (p1 @ p2) @ s2 \<and> p1 @ p2 \<noteq> [] \<and> list_all url_body_char (p1 @ p2)
      \<and> k s2 g = Some res" by simp
  then show ?thesis by blast
qed

lemma lit_prefix_exact:
  "lit_prefix f h s \<Longrightarrow> \<not> ignorecase f \<Longrightarrow> \<exists>r. s = h @ r"
  by (induction f h s rule: lit_prefix.induct) (auto simp: chr_match_def)

lemma starts_with_append_self: "starts_with a (a @ b)"
  by (induction a) auto

lemma url_match_shape:
  assumes "match_here re_none url_pattern st = Some (rest, g)"
  shows "url_shape (take (length st - length rest) st)"
proof -
  let ?fin = "\<lambda>s' (g::string option). Some (s', g)"
  have nf: "\<not> ignorecase re_none" by (simp add: re_none_def)
  from assms have m: "rx_match re_none (lit ''http'') st None
      (\<lambda>s' g'. rx_match re_none (Opt (Set [One CHR ''s''])) s' g'
         (\<lambda>s' g'. rx_match re_none (lit ''://'') s' g'
            (\<lambda>s' g'. rx_match re_none (Plus url_unit) s' g' ?fin))) = Some (rest, g)"
    by (simp add: match_here_def url_pattern_def)
  let ?K2 = "\<lambda>s' g'. rx_match re_none (lit ''://'') s' g'
            (\<lambda>s' g'. rx_match re_none (Plus url_unit) s' g' ?fin)"
  from m obtain s1 where st: "st = ''http'' @ s1"
    and m1: "rx_match re_none (Opt (Set [One CHR ''s''])) s1 None ?K2 = Some (rest, g)"
    using lit_prefix_exact[OF _ nf, of "''http''" st]
    by (auto simp: rx_match_lit split: if_splits)
  from m1 obtain sch s2 where s1: "s1 = sch @ s2" and sch: "sch = [] \<or> sch = ''s''"
    and m2: "?K2 s2 None = Some (rest, g)"
  proof -
    have "rx_match re_none (Opt (Set [One CHR ''s''])) s1 None ?K2 =
        (case rx_match re_none (Set [One CHR ''s'']) s1 None ?K2 of
           Some r \<Rightarrow> Some r | None \<Rightarrow> ?K2 s1 None)"
      unfolding Opt_def by (simp only: rx_match.simps)
    with m1 have "rx_match re_none (Set [One CHR ''s'']) s1 None ?K2 = Some (rest, g)
        \<or> ?K2 s1 None = Some (rest, g)" by (auto split: option.splits)
    then show ?thesis
    proof
      assume "rx_match re_none (Set [One CHR ''s'']) s1 None ?K2 = Some (rest, g)"
      then obtain x xs where "s1 = x # xs" "x = CHR ''s''" "?K2 xs None = Some (rest, g)"
        by (auto simp: set_match_def chr_match_def re_none_def split: list.splits if_splits)
      then show ?thesis using that[of "''s''" xs] by simp
    next
      assume "?K2 s1 None = Some (rest, g)"
      then show ?thesis using that[of "[]" s1] by simp
    qed
  qed
  from m2 obtain s3 where s2: "s2 = ''://'' @ s3"
    and m3: "rx_match re_none (Plus url_unit) s3 None ?fin = Some (rest, g)"
    using lit_prefix_exact[OF _ nf, of "''://''" s2]
    by (auto simp: rx_match_lit split: if_splits)
  from url_plus_consumes[OF m3] obtain body where
    s3: "s3 = body @ rest" and body: "body \<noteq> []" "list_all url_body_char body" by auto
  define u where "u = ''http'' @ sch @ ''://'' @ body"
  have "st = u @ rest" using st s1 s2 s3 by (simp add: u_def)
  then have "take (length st - length rest) st = u" by simp
  then have tk: "take (length st - length rest) st = ''http'' @ sch @ ''://'' @ body"
    by (simp add: u_def)
  from sch show ?thesis
  proof
    assume "sch = []"
    with tk have "take (length st - length rest) st = ''http://'' @ body" by simp
    then show ?thesis using body starts_with_append_self[of "''http://''" body]
      by (simp add: url_shape_def)
  next
    assume "sch = ''s''"
    with tk have "take (length st - length rest) st = ''https://'' @ body" by simp
    then show ?thesis using body starts_with_append_self[of "''https://''" body]
      by (simp add: url_shape_def)
  qed
qed

lemma re_findall_all:
  assumes "\<And>s st rest g. re_search f r s = Some (st, rest, g) \<Longrightarrow> P (group0 (st, rest, g))"
  shows "list_all P (re_findall f r s)"
proof (induction "length s" arbitrary: s rule: less_induct)
  case less
  show ?case
  proof (cases "re_search f r s")
    case None
    then show ?thesis by (subst re_findall.simps) simp
  next
    case (Some m)
    obtain st rest g where m: "m = (st, rest, g)" by (cases m) auto
    from Some m have sr: "re_search f r s = Some (st, rest, g)" by simp
    from re_search_shorter[OF sr] have le: "length rest \<le> length st" "length st \<le> length s" by auto
    have h: "P (group0 (st, rest, g))" using assms[OF sr] .
    have t: "list_all P (if length rest < length st then re_findall f r rest
             else (case st of [] \<Rightarrow> [] | x # xs \<Rightarrow> re_findall f r xs))"
    proof (cases "length rest < length st")
      case True
      with le have "length rest < length s" by simp
      from less[OF this] True show ?thesis by simp
    next
      case False
      show ?thesis
      proof (cases st)
        case Nil
        with False show ?thesis by simp
      next
        case (Cons x xs)
        with le have "length xs < length s" by simp
        from less[OF this] False Cons show ?thesis by simp
      qed
    qed
    show ?thesis by (subst re_findall.simps) (simp add: sr h t)
  qed
qed

lemma extract_urls_shape: "list_all url_shape (extract_urls text)"
  unfolding extract_urls_def
proof (rule re_findall_all)
  fix s st rest g
  assume "re_search re_none url_pattern s = Some (st, rest, g)"
  from re_search_Some[OF this] have "match_here re_none url_pattern st = Some (rest, g)" by simp
  from url_match_shape[OF this] show "url_shape (group0 (st, rest, g))" by (simp add: group0_def)
qed

lemma extract_urls_empty: "extract_urls [] = []"
proof -
  have "match_here re_none url_pattern [] = None"
    by (simp add: match_here_def url_pattern_def rx_match_lit)
  then have "re_search re_none url_pattern [] = None" by simp
  then show ?thesis unfolding extract_urls_def by (subst re_findall.simps) simp
qed

text \<open>
  C5. The claim: the extractor returns \<open>http://example.com/a?b=1\<close> for the text
  \<open>Visit http://example.com/a?b=1 now\<close>, it matches only texts of the grammar
  \<open>scheme://body+\<close> whose body characters are alphanumerics, the characters
  \<open>$-_@.&+!*(),\<close> and percent-encoded octets, and the empty text gives no URL. The URL of
  the example is returned, and it is not a text of that grammar: \<open>/\<close>, \<open>?\<close> and \<open>=\<close>
  are none of the characters listed. In the pattern of the source \<open>$-_\<close> is a range.
\<close>

theorem example_url_outside_spec_grammar:
  "extract_urls ''Visit http://example.com/a?b=1 now'' = [''http://example.com/a?b=1'']
   \<and> \<not> spec_url ''http://example.com/a?b=1''"
  by code_simp

text \<open>
  C5, amended: the extractor returns \<open>http://example.com/a?b=1\<close> for the text of the
  example and nothing for the empty text, and every URL it returns, for any text, is
  \<open>http://\<close> or \<open>https://\<close> followed by one or more characters that are ASCII letters or
  digits, \<open>!\<close>, or code points from 0x24 to 0x5F.
\<close>

theorem extract_urls_range_grammar:
  "extract_urls ''Visit http://example.com/a?b=1 now'' = [''http://example.com/a?b=1'']
   \<and> extract_urls [] = []
   \<and> list_all url_shape (extract_urls text)"
proof -
  have "extract_urls ''Visit http://example.com/a?b=1 now'' = [''http://example.com/a?b=1'']"
    by code_simp
  then show ?thesis using extract_urls_empty extract_urls_shape by simp
qed

subsection \<open>The value after a header\<close>




















subsection \<open>Blocks of sub-field lines\<close>
















subsection \<open>The four sub-fields in a block\<close>













subsection \<open>Digits, and the metadata text\<close>















end
